theory Spec2Isabelle
  imports Complex_Main
begin

section \<open>Tron light cycles: the game core (game.ts) and the particle helpers (renderer.ts)\<close>

text \<open>
  The simulation is the class \<open>TronGame\<close>. Its fields become the record \<open>game\<close>, its
  methods become functions that take the record and return the updated one. Coordinates,
  cycle ids, grid cells and scores are JavaScript numbers that only ever hold integers
  here, so they are \<open>int\<close>; times (\<open>performance.now()\<close>, the argument of \<open>update\<close>) and the
  particle geometry are \<open>real\<close>. The softmax of \<open>makeAIDecision\<close> leaves the range of the
  doubles, so its numbers are \<open>jsnum\<close>, with Infinity and NaN. \<open>Math.random()\<close> is an
  explicit stream \<open>rnd\<close> of reals read at an index that every call advances by one;
  \<open>performance.now()\<close> is the parameter \<open>now\<close>.
\<close>

subsection \<open>Data\<close>

datatype Direction = UP | DOWN | LEFT | RIGHT

datatype GameState = PLAYING | RESTARTING

text \<open>\<open>Point\<close> of renderer.ts; the fields x and y are named \<open>px\<close> and \<open>py\<close>.\<close>

record Point =
  px :: int
  py :: int

text \<open>\<open>Particle\<close> of renderer.ts (x, y, size and color carry a prefix).\<close>

record Particle =
  part_x :: int
  part_y :: int
  offsetX :: real
  offsetY :: real
  velocityX :: real
  velocityY :: real
  part_size :: real
  life :: real
  part_color :: string

text \<open>\<open>LightCycle\<close>; the field id is named \<open>cid\<close>.\<close>

record LightCycle =
  cid :: int
  position :: Point
  direction :: Direction
  color :: string
  glowColor :: string
  alive :: bool
  pathfindingMemory :: "Point list"
  lastDirectionChange :: int
  movesSinceDirectionChange :: int

text \<open>
  The fields of \<open>TronGame\<close>. \<open>config\<close> is only read by the drawing methods and is left out;
  \<open>restartDelay\<close> is never assigned after its initialiser and is the constant below.
\<close>

record game =
  grid :: "int list list"
  cycles :: "LightCycle list"
  trailGrid :: "int list list"
  state :: GameState
  score :: int
  speed :: int
  lastMoveTime :: real
  particles :: "Particle list"
  restartTime :: real
  gameStartTime :: real
  frameCount :: int

definition restartDelay :: real where
  "restartDelay = 1000"

subsection \<open>Particles (renderer.ts)\<close>

text \<open>
  \<open>createExplosion(x, y)\<close> with the default count of 12. Each particle draws three random
  numbers: the speed, the size and the colour, in that order. The result is the particles
  and the index of the next unread random number.
\<close>

definition explosionParticle :: "int \<Rightarrow> int \<Rightarrow> (nat \<Rightarrow> real) \<Rightarrow> nat \<Rightarrow> nat \<Rightarrow> Particle" where
  "explosionParticle ex ey rnd k i =
     (let angle = (real i / 12) * pi * 2;
          spd = 2 + rnd (k + 3 * i) * 3
      in \<lparr> part_x = ex, part_y = ey, offsetX = 0, offsetY = 0,
           velocityX = cos angle * spd, velocityY = sin angle * spd,
           part_size = 2 + rnd (k + 3 * i + 1) * 3, life = 1,
           part_color = (if rnd (k + 3 * i + 2) > 0.5 then ''#ff4757'' else ''#ffa502'') \<rparr>)"

definition createExplosion :: "int \<Rightarrow> int \<Rightarrow> (nat \<Rightarrow> real) \<Rightarrow> nat \<Rightarrow> Particle list \<times> nat" where
  "createExplosion ex ey rnd k = (map (explosionParticle ex ey rnd k) [0..<12], k + 36)"

definition updateParticles :: "Particle list \<Rightarrow> Particle list" where
  "updateParticles ps =
     filter (\<lambda>p. life p > 0)
       (map (\<lambda>p. p\<lparr> offsetX := offsetX p + velocityX p,
                     offsetY := offsetY p + velocityY p,
                     life := life p - 0.02,
                     velocityY := velocityY p + 0.1 \<rparr>) ps)"

subsection \<open>Grid queries\<close>

definition isValidPosition :: "Point \<Rightarrow> bool" where
  "isValidPosition pos \<longleftrightarrow> px pos \<ge> 0 \<and> px pos < 52 \<and> py pos \<ge> 0 \<and> py pos < 7"

text \<open>
  \<open>checkCollision\<close>: out of bounds is a collision; inside, any non-zero trail cell is. The
  trail grid is always 7 rows of 52 cells (\<open>trailShape\<close> below), so the read is in range.
\<close>

definition checkCollision :: "int list list \<Rightarrow> Point \<Rightarrow> bool" where
  "checkCollision tg pos =
     (if \<not> isValidPosition pos then True
      else tg ! nat (py pos) ! nat (px pos) \<noteq> 0)"

definition getOppositeDirection :: "Direction \<Rightarrow> Direction" where
  "getOppositeDirection d = (case d of UP \<Rightarrow> DOWN | DOWN \<Rightarrow> UP | LEFT \<Rightarrow> RIGHT | RIGHT \<Rightarrow> LEFT)"

definition getNextPositionInDirection :: "Point \<Rightarrow> Direction \<Rightarrow> Point" where
  "getNextPositionInDirection pos d =
     (let delta = (case d of UP \<Rightarrow> \<lparr>px = 0, py = -1\<rparr> | DOWN \<Rightarrow> \<lparr>px = 0, py = 1\<rparr>
                           | LEFT \<Rightarrow> \<lparr>px = -1, py = 0\<rparr> | RIGHT \<Rightarrow> \<lparr>px = 1, py = 0\<rparr>)
      in \<lparr> px = px pos + px delta, py = py pos + py delta \<rparr>)"

definition allDirections :: "Direction list" where
  "allDirections = [UP, DOWN, LEFT, RIGHT]"

text \<open>\<open>getSafeDirections\<close>: its local table \<open>opposites\<close> is the one of \<open>getOppositeDirection\<close>.\<close>

definition getSafeDirections :: "int list list \<Rightarrow> LightCycle \<Rightarrow> Direction list" where
  "getSafeDirections tg cycle =
     filter (\<lambda>dir.
        if getOppositeDirection (direction cycle) = dir then False
        else \<not> checkCollision tg (getNextPositionInDirection (position cycle) dir))
       allDirections"

definition countFutureOptions :: "int list list \<Rightarrow> Point \<Rightarrow> Direction \<Rightarrow> int" where
  "countFutureOptions tg pos currentDir =
     (let opposite = getOppositeDirection currentDir
      in int (length (filter (\<lambda>dir.
            if dir = opposite then False
            else \<not> checkCollision tg (getNextPositionInDirection pos dir)) allDirections)))"

text \<open>
  \<open>countOpenSpaceAround\<close>: the two nested loops run dy (outer) and dx (inner) over
  \<open>-radius .. radius\<close> and skip the centre.
\<close>

definition countOpenSpaceAround :: "int list list \<Rightarrow> Point \<Rightarrow> int \<Rightarrow> int" where
  "countOpenSpaceAround tg pos radius =
     int (length (filter (\<lambda>(dy, dx).
        \<not> (dx = 0 \<and> dy = 0) \<and>
        (let checkPos = \<lparr> px = px pos + dx, py = py pos + dy \<rparr>
         in isValidPosition checkPos \<and> \<not> checkCollision tg checkPos))
       (List.product [- radius .. radius] [- radius .. radius])))"

subsection \<open>Decision engine\<close>

record Features =
  safetyDistance :: int
  openSpace :: int
  edgeDistance :: int
  pathDiversity :: int
  continuity :: int
  exploration :: int
  avoidance :: int
  futureOptions :: int

text \<open>
  The loop of feature 1: at most \<open>n\<close> further iterations from \<open>checkPos\<close>, stopping at the
  first collision; the result is the number of increments of \<open>safetyDistance\<close>.
\<close>

fun safetyScan :: "int list list \<Rightarrow> Direction \<Rightarrow> Point \<Rightarrow> nat \<Rightarrow> int" where
  "safetyScan tg d checkPos 0 = 0"
| "safetyScan tg d checkPos (Suc n) =
     (if checkCollision tg checkPos then 0
      else 1 + safetyScan tg d (getNextPositionInDirection checkPos d) n)"

text \<open>
  Feature 6 reads the activity grid as \<open>this.grid[y]?.[x] <= 1\<close>: a missing row or a missing
  cell gives \<open>undefined <= 1\<close>, which is false.
\<close>

definition activityLow :: "int list list \<Rightarrow> Point \<Rightarrow> bool" where
  "activityLow gr pos \<longleftrightarrow>
     0 \<le> py pos \<and> nat (py pos) < length gr \<and>
     0 \<le> px pos \<and> nat (px pos) < length (gr ! nat (py pos)) \<and>
     gr ! nat (py pos) ! nat (px pos) \<le> 1"

definition extractFeatures :: "int list list \<Rightarrow> int list list \<Rightarrow> LightCycle \<Rightarrow> Direction \<Rightarrow> Features" where
  "extractFeatures tg gr cycle dir =
     (let nextPos = getNextPositionInDirection (position cycle) dir;
          recentlyVisited = int (length (filter
             (\<lambda>p. \<bar>px p - px nextPos\<bar> \<le> 2 \<and> \<bar>py p - py nextPos\<bar> \<le> 2)
             (pathfindingMemory cycle)))
      in \<lparr> safetyDistance = safetyScan tg dir nextPos 10,
           openSpace = countOpenSpaceAround tg nextPos 2,
           edgeDistance = min (px nextPos) (min (51 - px nextPos) (min (py nextPos) (6 - py nextPos))),
           pathDiversity = max 0 (10 - recentlyVisited),
           continuity = (if dir = direction cycle then 1 else 0),
           exploration = (if activityLow gr nextPos then 1 else 0),
           avoidance = (if checkCollision tg nextPos then 1 else 0),
           futureOptions = countFutureOptions tg nextPos dir \<rparr>)"

text \<open>The weights object of \<open>neuralEvaluateDirection\<close>, in the order of its fields.\<close>

definition weights :: Features where
  "weights = \<lparr> safetyDistance = 15, openSpace = 8, edgeDistance = 5, pathDiversity = 3,
               continuity = 2, exploration = 4, avoidance = -20, futureOptions = 6 \<rparr>"

definition neuralEvaluateDirection :: "int list list \<Rightarrow> int list list \<Rightarrow> LightCycle \<Rightarrow> Direction \<Rightarrow> int" where
  "neuralEvaluateDirection tg gr cycle dir =
     (let features = extractFeatures tg gr cycle dir
      in safetyDistance features * safetyDistance weights +
         openSpace features * openSpace weights +
         edgeDistance features * edgeDistance weights +
         pathDiversity features * pathDiversity weights +
         continuity features * continuity weights +
         exploration features * exploration weights +
         avoidance features * avoidance weights +
         futureOptions features * futureOptions weights)"

text \<open>
  The evaluations of the candidates, sorted by \<open>(a, b) => b.score - a.score\<close>: descending
  score, and stable (equal scores keep the order UP, DOWN, LEFT, RIGHT).
\<close>

definition evaluationsOf :: "int list list \<Rightarrow> int list list \<Rightarrow> LightCycle \<Rightarrow> (Direction \<times> int) list" where
  "evaluationsOf tg gr cycle =
     sort_key (\<lambda>e. - snd e)
       (map (\<lambda>dir. (dir, neuralEvaluateDirection tg gr cycle dir)) (getSafeDirections tg cycle))"

definition temperature :: real where
  "temperature = 0.5"

text \<open>
  The numbers of the softmax are IEEE doubles. All of them are results of \<open>Math.exp\<close>, of
  sums and of quotients of such results, so none is negative: a \<open>jsnum\<close> is a finite
  non-negative number, \<open>Infinity\<close> or \<open>NaN\<close>. A result above the largest double
  \<open>(2 - 2^-52) * 2^1023\<close> overflows to \<open>Infinity\<close>, and \<open>Math.exp\<close> below half the smallest
  double \<open>2^-1074\<close> gives 0; the rounding of the finite results in between is not modelled.
\<close>

datatype jsnum = Fin real | PosInfinity | NaN

definition maxDouble :: real where
  "maxDouble = 2 ^ 1024 - 2 ^ 971"

definition toDouble :: "real \<Rightarrow> jsnum" where
  "toDouble r = (if r > maxDouble then PosInfinity else Fin r)"

text \<open>\<open>Math.exp(v)\<close> for a finite \<open>v\<close>.\<close>

definition jsExp :: "real \<Rightarrow> jsnum" where
  "jsExp v =
     (if exp v > maxDouble then PosInfinity
      else if exp v < 1 / 2 ^ 1075 then Fin 0
      else Fin (exp v))"

text \<open>\<open>a + b\<close>: NaN is contagious, then Infinity wins.\<close>

fun jsAdd :: "jsnum \<Rightarrow> jsnum \<Rightarrow> jsnum" where
  "jsAdd NaN b = NaN"
| "jsAdd a NaN = NaN"
| "jsAdd PosInfinity b = PosInfinity"
| "jsAdd a PosInfinity = PosInfinity"
| "jsAdd (Fin a) (Fin b) = toDouble (a + b)"

text \<open>\<open>a / b\<close>: \<open>Infinity / Infinity\<close> and \<open>0 / 0\<close> are NaN, a finite number over Infinity is 0.\<close>

fun jsDiv :: "jsnum \<Rightarrow> jsnum \<Rightarrow> jsnum" where
  "jsDiv NaN b = NaN"
| "jsDiv a NaN = NaN"
| "jsDiv PosInfinity PosInfinity = NaN"
| "jsDiv PosInfinity (Fin b) = PosInfinity"
| "jsDiv (Fin a) PosInfinity = Fin 0"
| "jsDiv (Fin a) (Fin b) =
     (if b = 0 then (if a = 0 then NaN else PosInfinity) else toDouble (a / b))"

text \<open>\<open>random <= c\<close> for a finite \<open>random\<close>: every comparison with NaN is false.\<close>

fun jsLe :: "real \<Rightarrow> jsnum \<Rightarrow> bool" where
  "jsLe r (Fin v) = (r \<le> v)"
| "jsLe r PosInfinity = True"
| "jsLe r NaN = False"

text \<open>
  The softmax of the sorted evaluations: \<open>expScores\<close>, their sum by \<open>reduce\<close> from 0, and
  the quotients.
\<close>

definition probabilitiesOf :: "(Direction \<times> int) list \<Rightarrow> jsnum list" where
  "probabilitiesOf evaluations =
     (let expScores = map (\<lambda>e. jsExp (real_of_int (snd e) / temperature)) evaluations;
          sumExp = foldl jsAdd (Fin 0) expScores
      in map (\<lambda>ex. jsDiv ex sumExp) expScores)"

text \<open>
  The selection loop: \<open>cumulative\<close> is the sum so far; the first index whose cumulative
  probability reaches \<open>random\<close> is returned, \<open>None\<close> when the loop runs to its end.
\<close>

fun weightedSelect :: "real \<Rightarrow> jsnum \<Rightarrow> (Direction \<times> int) list \<Rightarrow> jsnum list \<Rightarrow> Direction option" where
  "weightedSelect random cumulative (e # es) (p # ps) =
     (if jsLe random (jsAdd cumulative p) then Some (fst e)
      else weightedSelect random (jsAdd cumulative p) es ps)"
| "weightedSelect random cumulative es ps = None"

text \<open>
  \<open>makeAIDecision\<close>: returns the heading and the index of the next unread random number
  (one number is drawn, and only when there is a candidate). When the loop selects
  nothing, the statement after it returns the best-scored candidate.
\<close>

definition makeAIDecision :: "int list list \<Rightarrow> int list list \<Rightarrow> LightCycle \<Rightarrow> (nat \<Rightarrow> real) \<Rightarrow> nat \<Rightarrow> Direction \<times> nat" where
  "makeAIDecision tg gr cycle rnd k =
     (if length (getSafeDirections tg cycle) = 0 then (direction cycle, k)
      else
        let evaluations = evaluationsOf tg gr cycle;
            probabilities = probabilitiesOf evaluations;
            random = rnd k
        in (case weightedSelect random (Fin 0) evaluations probabilities of
              Some d \<Rightarrow> (d, k + 1)
            | None \<Rightarrow> (fst (evaluations ! 0), k + 1)))"

subsection \<open>Round reset\<close>

definition emptyTrail :: "int list list" where
  "emptyTrail = replicate 7 (replicate 52 0)"

definition getStartPositions :: "nat \<Rightarrow> Point list" where
  "getStartPositions count =
     take (min count 4) [\<lparr>px = 8, py = 1\<rparr>, \<lparr>px = 43, py = 1\<rparr>, \<lparr>px = 8, py = 5\<rparr>, \<lparr>px = 43, py = 5\<rparr>]"

text \<open>
  \<open>getRandomDirection\<close>: \<open>directions[Math.floor(Math.random() * 4)]\<close>. \<open>Math.random()\<close> lies
  in \<open>[0, 1)\<close>, so the index is 0..3; for any other number the array read gives JavaScript's
  \<open>undefined\<close>.
\<close>

definition getRandomDirection :: "real \<Rightarrow> Direction" where
  "getRandomDirection r =
     (let i = \<lfloor>r * 4\<rfloor>
      in if 0 \<le> i \<and> i < 4 then allDirections ! nat i else undefined)"

definition cycleColors :: "(string \<times> string) list" where
  "cycleColors = [(''#00ffff'', ''#00ffff''), (''#ff4757'', ''#ff4757''),
                  (''#ffa502'', ''#ffa502''), (''#7bed9f'', ''#7bed9f'')]"

text \<open>\<open>createCycles\<close>: cycle \<open>i\<close> draws random number \<open>k + i\<close> for its heading.\<close>

definition createCycles :: "(nat \<Rightarrow> real) \<Rightarrow> nat \<Rightarrow> LightCycle list" where
  "createCycles rnd k =
     (let startPositions = getStartPositions (length cycleColors)
      in map (\<lambda>i. \<lparr> cid = int i + 1,
                     position = startPositions ! i,
                     direction = getRandomDirection (rnd (k + i)),
                     color = fst (cycleColors ! i),
                     glowColor = snd (cycleColors ! i),
                     alive = True,
                     pathfindingMemory = [],
                     lastDirectionChange = 0,
                     movesSinceDirectionChange = 0 \<rparr>) [0..<length cycleColors])"

text \<open>The assignment \<open>trailGrid[p.y][p.x] = v\<close>.\<close>

definition setCell :: "int list list \<Rightarrow> Point \<Rightarrow> int \<Rightarrow> int list list" where
  "setCell tg pos v = tg[nat (py pos) := (tg ! nat (py pos))[nat (px pos) := v]]"

definition placeCycle :: "int list list \<Rightarrow> LightCycle \<Rightarrow> int list list" where
  "placeCycle tg cycle =
     (if isValidPosition (position cycle) then setCell tg (position cycle) (cid cycle) else tg)"

definition reset :: "real \<Rightarrow> (nat \<Rightarrow> real) \<Rightarrow> nat \<Rightarrow> game \<Rightarrow> game" where
  "reset now rnd k g =
     (let cs = createCycles rnd k
      in g\<lparr> state := PLAYING, score := 0, speed := 200, lastMoveTime := 0, particles := [],
            gameStartTime := now, frameCount := 0,
            cycles := cs,
            trailGrid := foldl placeCycle emptyTrail cs \<rparr>)"

text \<open>The constructor: the field initialisers, then \<open>reset\<close>.\<close>

definition newGame :: "int list list \<Rightarrow> real \<Rightarrow> (nat \<Rightarrow> real) \<Rightarrow> game" where
  "newGame gr now rnd =
     reset now rnd 0
       \<lparr> grid = gr, cycles = [], trailGrid = emptyTrail, state = PLAYING, score = 0, speed = 0,
         lastMoveTime = 0, particles = [], restartTime = 0, gameStartTime = 0, frameCount = 0 \<rparr>"

definition forceRestart :: "real \<Rightarrow> (nat \<Rightarrow> real) \<Rightarrow> game \<Rightarrow> game" where
  "forceRestart now rnd g = reset now rnd 0 g"

subsection \<open>The tick\<close>

text \<open>
  The body of \<open>aliveCycles.forEach\<close> for the cycle object stored at index \<open>i\<close> of
  \<open>this.cycles\<close> (\<open>aliveCycles\<close> holds references to those objects, so the mutation is an
  update of the list at \<open>i\<close>). \<open>k\<close> is the index of the next unread random number.
\<close>

definition moveCycle :: "(nat \<Rightarrow> real) \<Rightarrow> nat \<Rightarrow> (game \<times> nat) \<Rightarrow> game \<times> nat" where
  "moveCycle rnd i gk =
     (let g = fst gk; k = snd gk;
          cycle = cycles g ! i;
          (newDirection, k1) = makeAIDecision (trailGrid g) (grid g) cycle rnd k;
          cycle1 = (if newDirection \<noteq> direction cycle
                    then cycle\<lparr> lastDirectionChange := frameCount g, movesSinceDirectionChange := 0 \<rparr>
                    else cycle\<lparr> movesSinceDirectionChange := movesSinceDirectionChange cycle + 1 \<rparr>);
          cycle2 = cycle1\<lparr> direction := newDirection \<rparr>;
          nextPos = getNextPositionInDirection (position cycle2) (direction cycle2)
      in if checkCollision (trailGrid g) nextPos then
           (let (expl, k2) = createExplosion (px (position cycle2)) (py (position cycle2)) rnd k1
            in (g\<lparr> cycles := (cycles g)[i := cycle2\<lparr> alive := False \<rparr>],
                   particles := particles g @ expl \<rparr>, k2))
         else
           (let mem = pathfindingMemory cycle2 @ [position cycle2];
                mem1 = (if length mem > 20 then tl mem else mem)
            in (g\<lparr> cycles := (cycles g)[i := cycle2\<lparr> pathfindingMemory := mem1, position := nextPos \<rparr>],
                   trailGrid := placeCycle (trailGrid g) cycle2 \<rparr>, k1)))"

text \<open>The indices of the cycles that pass \<open>this.cycles.filter((cycle) => cycle.alive)\<close>.\<close>

definition aliveIndices :: "game \<Rightarrow> nat list" where
  "aliveIndices g = filter (\<lambda>i. alive (cycles g ! i)) [0..<length (cycles g)]"

definition explodeAt :: "(nat \<Rightarrow> real) \<Rightarrow> (Particle list \<times> nat) \<Rightarrow> LightCycle \<Rightarrow> Particle list \<times> nat" where
  "explodeAt rnd pk cycle =
     (let (expl, k1) = createExplosion (px (position cycle)) (py (position cycle)) rnd (snd pk)
      in (fst pk @ expl, k1))"

definition initiateRestart :: "real \<Rightarrow> (nat \<Rightarrow> real) \<Rightarrow> game \<Rightarrow> game" where
  "initiateRestart currentTime rnd g =
     g\<lparr> state := RESTARTING, restartTime := currentTime,
        particles := fst (foldl (explodeAt rnd) (particles g, 0) (filter alive (cycles g))) \<rparr>"

definition trailLength :: "int list list \<Rightarrow> int" where
  "trailLength tg = int (length (filter (\<lambda>cell. cell > 0) (concat tg)))"

text \<open>
  \<open>update(currentTime)\<close>. \<open>rnd\<close> is the stream of the numbers \<open>Math.random()\<close> returns during
  this call, \<open>now\<close> what \<open>performance.now()\<close> returns if the call resets the round.
\<close>

definition update :: "real \<Rightarrow> (nat \<Rightarrow> real) \<Rightarrow> real \<Rightarrow> game \<Rightarrow> game" where
  "update currentTime rnd now g0 =
     (let g = g0\<lparr> frameCount := frameCount g0 + 1,
                  particles := updateParticles (particles g0) \<rparr>
      in if state g = RESTARTING then
           (if currentTime - restartTime g > restartDelay then reset now rnd 0 g else g)
         else if state g \<noteq> PLAYING then g
         else if currentTime - lastMoveTime g < real_of_int (speed g) then g
         else
           let aliveCycles = aliveIndices g
           in if length aliveCycles \<le> 1 then initiateRestart currentTime rnd g
              else
                let g1 = fst (foldl (\<lambda>gk i. moveCycle rnd i gk) (g, 0) aliveCycles);
                    survivalTime = \<lfloor>(currentTime - gameStartTime g1) / 1000\<rfloor>;
                    activeCycles = int (length aliveCycles);
                    gameTimeSeconds = (currentTime - gameStartTime g1) / 1000
                in g1\<lparr> score := survivalTime * 10 + activeCycles * 5 + trailLength (trailGrid g1),
                       speed := max 80 (200 - \<lfloor>gameTimeSeconds / 10\<rfloor> * 20),
                       lastMoveTime := currentTime \<rparr>)"

text \<open>
  \<open>gameLoop\<close> of the page calls \<open>game.update(currentTime)\<close> once per animation frame; here
  for the frame times \<open>ts\<close>, in order, with the same stream and clock at every call.
\<close>

definition gameLoop :: "(nat \<Rightarrow> real) \<Rightarrow> real \<Rightarrow> real list \<Rightarrow> game \<Rightarrow> game" where
  "gameLoop rnd now ts g = foldl (\<lambda>g1 t. update t rnd now g1) g ts"

text \<open>The frame times 200, 400, ..., 200 n: every one of them is a permitted tick.\<close>

definition tickTimes :: "nat \<Rightarrow> real list" where
  "tickTimes n = map (\<lambda>j. 200 * real j) [1..<Suc n]"

subsection \<open>Reachable states and their shape\<close>

text \<open>
  The states a client can produce: the constructor, then any sequence of the public
  methods \<open>update\<close> and \<open>forceRestart\<close>.
\<close>

inductive reachable :: "game \<Rightarrow> bool" where
  start: "reachable (newGame gr now rnd)"
| step: "reachable g \<Longrightarrow> reachable (update t rnd now g)"
| restart: "reachable g \<Longrightarrow> reachable (forceRestart now rnd g)"

definition trailShape :: "int list list \<Rightarrow> bool" where
  "trailShape tg \<longleftrightarrow> length tg = 7 \<and> (\<forall>row \<in> set tg. length row = 52)"

definition wellFormed :: "game \<Rightarrow> bool" where
  "wellFormed g \<longleftrightarrow>
     trailShape (trailGrid g) \<and>
     (\<forall>row \<in> set (trailGrid g). \<forall>v \<in> set row. 0 \<le> v) \<and>
     (\<forall>c \<in> set (cycles g). isValidPosition (position c) \<and> 0 < cid c)"

text \<open>The trail cell at column \<open>cx\<close> of row \<open>cy\<close>.\<close>

definition trailCell :: "game \<Rightarrow> nat \<Rightarrow> nat \<Rightarrow> int" where
  "trailCell g cx cy = trailGrid g ! cy ! cx"

subsection \<open>Concrete rounds\<close>

text \<open>
  A round on an activity grid without activity in which \<open>Math.random()\<close> always returns 0:
  all four cycles start heading UP and every decision takes the best-scored candidate.
\<close>

definition quietGrid :: "int list list" where
  "quietGrid = replicate 7 (replicate 52 0)"

definition greedyRound :: "nat \<Rightarrow> game" where
  "greedyRound n = gameLoop (\<lambda>_. 0) 0 (tickTimes n) (newGame quietGrid 0 (\<lambda>_. 0))"

text \<open>The same round on an activity grid whose columns 0 to 22 hold level 4.\<close>

definition busyLeftGrid :: "int list list" where
  "busyLeftGrid = replicate 7 (replicate 23 4 @ replicate 29 0)"

definition chaseRound :: "nat \<Rightarrow> game" where
  "chaseRound n = gameLoop (\<lambda>_. 0) 0 (tickTimes n) (newGame busyLeftGrid 0 (\<lambda>_. 0))"

text \<open>
  Positions after eleven ticks (frame 11, last move at 2200 ms) in which cycles 2, 3 and 4
  have driven themselves into a corner: cycle 2 went from its spawn cell (43,1) up to
  (43,0), right along row 0 to (50,0), down to (50,1), right to (51,1) and up into the
  corner (51,0); cycles 3 and 4 mirror that path in the bottom corners. \<open>corneredPath\<close>
  lists the cells such a cycle has left, oldest first.
\<close>

definition corneredPath :: "int \<Rightarrow> int \<Rightarrow> int \<Rightarrow> int \<Rightarrow> Point list" where
  "corneredPath sx sy dx dy =
     [\<lparr>px = sx, py = sy\<rparr>, \<lparr>px = sx, py = sy + dy\<rparr>] @
     map (\<lambda>j. \<lparr>px = sx + dx * j, py = sy + dy\<rparr>) [1..7] @
     [\<lparr>px = sx + dx * 7, py = sy\<rparr>, \<lparr>px = sx + dx * 8, py = sy\<rparr>]"

definition corneredCycle :: "int \<Rightarrow> int \<Rightarrow> int \<Rightarrow> int \<Rightarrow> int \<Rightarrow> Point list \<Rightarrow> LightCycle" where
  "corneredCycle n sx sy dx dy path =
     \<lparr> cid = n, position = \<lparr>px = sx + dx * 8, py = sy + dy\<rparr>,
       direction = (if dy < 0 then UP else DOWN),
       color = fst (cycleColors ! nat (n - 1)), glowColor = snd (cycleColors ! nat (n - 1)),
       alive = True, pathfindingMemory = path,
       lastDirectionChange = 11, movesSinceDirectionChange = 0 \<rparr>"

text \<open>
  \<open>corneredWith path1\<close>: cycle 1 stands on (0,0) heading UP and has left the cells
  \<open>path1\<close>; every cell a cycle has left holds that cycle's id.
\<close>

definition corneredWith :: "Point list \<Rightarrow> game" where
  "corneredWith path1 =
     \<lparr> grid = quietGrid,
       cycles = [corneredCycle 1 8 1 (-1) (-1) path1,
                 corneredCycle 2 43 1 1 (-1) (corneredPath 43 1 1 (-1)),
                 corneredCycle 3 8 5 (-1) 1 (corneredPath 8 5 (-1) 1),
                 corneredCycle 4 43 5 1 1 (corneredPath 43 5 1 1)],
       trailGrid =
         foldl (\<lambda>tg (n, ps). foldl (\<lambda>tg1 p. setCell tg1 p n) tg ps) emptyTrail
           [(1, path1), (2, corneredPath 43 1 1 (-1)),
            (3, corneredPath 8 5 (-1) 1), (4, corneredPath 43 5 1 1)],
       state = PLAYING, score = 84, speed = 200,
       lastMoveTime = 2200, particles = [], restartTime = 0, gameStartTime = 0,
       frameCount = 11 \<rparr>"

text \<open>
  \<open>cornered\<close>: cycle 1 took the mirrored path too ((8,1), (8,0), row 0 to (1,0), (1,1),
  (0,1), then up into (0,0)), so all four cycles are alive and none has a safe heading.
\<close>

definition cornered :: game where
  "cornered = corneredWith (corneredPath 8 1 (-1) (-1))"

text \<open>
  \<open>detour\<close>: cycle 1 left row 0 one cell earlier ((8,1), (8,0), row 0 to (2,0), (2,1),
  (1,1), (0,1), then up into (0,0)), so the cell (1,0) to its right is still empty.
  \<open>loneSurvivor\<close> is the position after the next tick (2400 ms, \<open>Math.random()\<close> returning
  0): cycles 2, 3 and 4 have crashed and cycle 1 has moved into the dead end (1,0).
\<close>

definition detourPath :: "Point list" where
  "detourPath =
     [\<lparr>px = 8, py = 1\<rparr>, \<lparr>px = 8, py = 0\<rparr>] @
     map (\<lambda>j. \<lparr>px = 8 - j, py = 0\<rparr>) [1..6] @
     [\<lparr>px = 2, py = 1\<rparr>, \<lparr>px = 1, py = 1\<rparr>, \<lparr>px = 0, py = 1\<rparr>]"

definition detour :: game where
  "detour = corneredWith detourPath"

definition loneSurvivor :: game where
  "loneSurvivor = update 2400 (\<lambda>_. 0) 0 detour"

text \<open>\<open>pausedRound\<close>: the position one tick later (2600 ms), when the restart has begun.\<close>

definition pausedRound :: game where
  "pausedRound = update 2600 (\<lambda>_. 0) 0 loneSurvivor"

subsection \<open>Vocabulary for the statements\<close>

text \<open>The first two statements of \<open>update\<close>: the frame counter and the particles.\<close>

definition framed :: "game \<Rightarrow> game" where
  "framed g = g\<lparr> frameCount := frameCount g + 1, particles := updateParticles (particles g) \<rparr>"

text \<open>
  What an observer sees of the cycles that are alive (id, cell, heading), and of one trail
  cell, just before and just after the tick at time \<open>t\<close> in a round where \<open>Math.random()\<close>
  returns 0.
\<close>

definition heads :: "game \<Rightarrow> (int \<times> Point \<times> Direction) list" where
  "heads g = map (\<lambda>c. (cid c, position c, direction c)) (filter alive (cycles g))"

definition report :: "nat \<Rightarrow> nat \<Rightarrow> game \<Rightarrow> GameState \<times> int \<times> (int \<times> Point \<times> Direction) list" where
  "report cx cy g = (state g, trailCell g cx cy, heads g)"

definition tickReport :: "real \<Rightarrow> nat \<Rightarrow> nat \<Rightarrow> game \<Rightarrow>
    (GameState \<times> int \<times> (int \<times> Point \<times> Direction) list) \<times>
    (GameState \<times> int \<times> (int \<times> Point \<times> Direction) list)" where
  "tickReport t cx cy g = (report cx cy g, report cx cy (update t (\<lambda>_. 0) 0 g))"

text \<open>
  The ranked evaluations \<open>makeAIDecision\<close> computes for the cycle at index \<open>i\<close>, and what a
  tick at time \<open>t\<close> does to the score: the new score, the whole seconds since the round
  started, the number of cycles alive before and after the tick, and the number of
  non-zero trail cells after it.
\<close>

definition rankedCandidates :: "game \<Rightarrow> nat \<Rightarrow> (Direction \<times> int) list" where
  "rankedCandidates g i = evaluationsOf (trailGrid g) (grid g) (cycles g ! i)"

definition scoreReport :: "real \<Rightarrow> game \<Rightarrow> int \<times> int \<times> nat \<times> nat \<times> nat" where
  "scoreReport t g =
     (score (update t (\<lambda>_. 0) 0 g),
      \<lfloor>(t - gameStartTime g) / 1000\<rfloor>,
      length (filter alive (cycles g)),
      length (filter alive (cycles (update t (\<lambda>_. 0) 0 g))),
      length (filter (\<lambda>cell. cell \<noteq> 0) (concat (trailGrid (update t (\<lambda>_. 0) 0 g)))))"

text \<open>A number of the softmax is not negative when it is finite.\<close>

definition nonNegative :: "jsnum \<Rightarrow> bool" where
  "nonNegative n = (case n of Fin v \<Rightarrow> 0 \<le> v | PosInfinity \<Rightarrow> True | NaN \<Rightarrow> True)"

section \<open>Lemmas\<close>

subsection \<open>Facts about the decision engine\<close>

lemma opposite_neq: "getOppositeDirection d \<noteq> d"
  by (cases d) (simp_all add: getOppositeDirection_def)

lemma safe_iff:
  "d \<in> set (getSafeDirections tg c) \<longleftrightarrow>
     d \<noteq> getOppositeDirection (direction c) \<and>
     \<not> checkCollision tg (getNextPositionInDirection (position c) d)"
  by (cases d) (auto simp: getSafeDirections_def allDirections_def)

lemma evaluationsOf_length: "length (evaluationsOf tg gr c) = length (getSafeDirections tg c)"
  by (simp add: evaluationsOf_def)

lemma evaluationsOf_dirs: "fst ` set (evaluationsOf tg gr c) = set (getSafeDirections tg c)"
  by (force simp: evaluationsOf_def)

lemma evaluationsOf_sorted: "sorted_wrt (\<lambda>a b. snd a \<ge> snd b) (evaluationsOf tg gr c)"
proof -
  have "sorted (map (\<lambda>e. - snd e) (evaluationsOf tg gr c))"
    unfolding evaluationsOf_def by (rule sorted_sort_key)
  then show ?thesis by (simp add: sorted_map sorted_wrt_iff_nth_less)
qed

lemma weightedSelect_member:
  "weightedSelect random cumulative es ps = Some d \<Longrightarrow> d \<in> fst ` set es"
  by (induction random cumulative es ps rule: weightedSelect.induct) (auto split: if_splits)

lemma weightedSelect_NaN: "weightedSelect random NaN es ps = None"
proof (induction es arbitrary: ps)
  case Nil
  then show ?case by simp
next
  case (Cons e es)
  then show ?case by (cases ps) simp_all
qed

lemma probabilitiesOf_length: "length (probabilitiesOf es) = length es"
  by (simp add: probabilitiesOf_def Let_def)

text \<open>No number of the softmax is negative.\<close>

lemma nonNegative_toDouble: "0 \<le> r \<Longrightarrow> nonNegative (toDouble r)"
  by (simp add: toDouble_def nonNegative_def)

lemma nonNegative_jsExp: "nonNegative (jsExp v)"
  by (simp add: jsExp_def nonNegative_def)

lemma nonNegative_jsAdd: "nonNegative a \<Longrightarrow> nonNegative b \<Longrightarrow> nonNegative (jsAdd a b)"
  by (cases a; cases b) (simp_all add: nonNegative_def toDouble_def)

lemma nonNegative_jsDiv: "nonNegative a \<Longrightarrow> nonNegative b \<Longrightarrow> nonNegative (jsDiv a b)"
  by (cases a; cases b) (simp_all add: nonNegative_def toDouble_def)

lemma nonNegative_foldl:
  "nonNegative a \<Longrightarrow> \<forall>v \<in> set xs. nonNegative v \<Longrightarrow> nonNegative (foldl jsAdd a xs)"
  by (induction xs arbitrary: a) (simp_all add: nonNegative_jsAdd)

lemma probabilitiesOf_nonNegative: "p \<in> set (probabilitiesOf es) \<Longrightarrow> nonNegative p"
proof -
  assume "p \<in> set (probabilitiesOf es)"
  then obtain e where p: "p = jsDiv (jsExp (real_of_int (snd e) / temperature))
      (foldl jsAdd (Fin 0) (map (\<lambda>e. jsExp (real_of_int (snd e) / temperature)) es))"
    by (auto simp: probabilitiesOf_def Let_def)
  have "nonNegative (foldl jsAdd (Fin 0) (map (\<lambda>e. jsExp (real_of_int (snd e) / temperature)) es))"
    by (rule nonNegative_foldl) (auto simp: nonNegative_def nonNegative_jsExp [unfolded nonNegative_def])
  then show ?thesis unfolding p by (intro nonNegative_jsDiv nonNegative_jsExp)
qed

text \<open>
  With \<open>random = 0\<close> the first iteration of the loop returns, unless the first probability
  is NaN; then no iteration returns.
\<close>

lemma first_iteration:
  assumes "r \<le> 0" and "nonNegative p" and "p \<noteq> NaN"
  shows "jsLe r (jsAdd (Fin 0) p)"
proof (cases p)
  case (Fin v)
  with assms show ?thesis by (simp add: nonNegative_def toDouble_def)
next
  case PosInfinity
  then show ?thesis by simp
next
  case NaN
  with assms show ?thesis by simp
qed

lemma makeAIDecision_cases:
  "fst (makeAIDecision tg gr c rnd k) =
     (if getSafeDirections tg c = [] then direction c
      else case weightedSelect (rnd k) (Fin 0) (evaluationsOf tg gr c) (probabilitiesOf (evaluationsOf tg gr c)) of
             Some d \<Rightarrow> d | None \<Rightarrow> fst (evaluationsOf tg gr c ! 0))"
  by (simp add: makeAIDecision_def Let_def split: option.splits)

lemma makeAIDecision_candidate:
  assumes "getSafeDirections tg c \<noteq> []"
  shows "fst (makeAIDecision tg gr c rnd k) \<in> set (getSafeDirections tg c)"
proof (cases "weightedSelect (rnd k) (Fin 0) (evaluationsOf tg gr c) (probabilitiesOf (evaluationsOf tg gr c))")
  case None
  have "evaluationsOf tg gr c \<noteq> []"
    using assms evaluationsOf_length [of tg gr c] by auto
  then have "evaluationsOf tg gr c ! 0 \<in> set (evaluationsOf tg gr c)" by simp
  then have "fst (evaluationsOf tg gr c ! 0) \<in> fst ` set (evaluationsOf tg gr c)" by (rule imageI)
  with None assms show ?thesis by (simp add: makeAIDecision_cases evaluationsOf_dirs)
next
  case (Some d)
  from weightedSelect_member [OF Some] have "d \<in> set (getSafeDirections tg c)"
    by (simp add: evaluationsOf_dirs)
  with Some assms show ?thesis by (simp add: makeAIDecision_cases)
qed

lemma makeAIDecision_stuck:
  "getSafeDirections tg c = [] \<Longrightarrow> makeAIDecision tg gr c rnd k = (direction c, k)"
  by (simp add: makeAIDecision_def)

lemma makeAIDecision_greedy:
  assumes "rnd k \<le> 0" and "getSafeDirections tg c \<noteq> []"
  shows "makeAIDecision tg gr c rnd k = (fst (hd (evaluationsOf tg gr c)), k + 1)"
proof -
  obtain e es where E: "evaluationsOf tg gr c = e # es"
    using assms(2) evaluationsOf_length [of tg gr c] by (cases "evaluationsOf tg gr c") auto
  obtain p ps where P: "probabilitiesOf (e # es) = p # ps"
    using probabilitiesOf_length [of "e # es"] by (cases "probabilitiesOf (e # es)") auto
  have nn: "nonNegative p" using probabilitiesOf_nonNegative [of p "e # es"] P by simp
  have "weightedSelect (rnd k) (Fin 0) (e # es) (p # ps) = Some (fst e) \<or>
        weightedSelect (rnd k) (Fin 0) (e # es) (p # ps) = None"
  proof (cases "p = NaN")
    case True
    then show ?thesis by (simp add: weightedSelect_NaN)
  next
    case False
    from first_iteration [OF assms(1) nn False] show ?thesis by simp
  qed
  then show ?thesis using assms(2) E P by (auto simp: makeAIDecision_def Let_def)
qed

text \<open>
  When \<open>Math.exp\<close> of the best score overflows, the sum is Infinity, the first probability
  is \<open>Infinity / Infinity = NaN\<close>, and the loop selects nothing.
\<close>

lemma foldl_jsAdd_NaN: "foldl jsAdd NaN xs = NaN"
  by (induction xs) simp_all

lemma foldl_jsAdd_PosInfinity: "NaN \<notin> set xs \<Longrightarrow> foldl jsAdd PosInfinity xs = PosInfinity"
proof (induction xs)
  case Nil
  then show ?case by simp
next
  case (Cons v xs)
  then have "jsAdd PosInfinity v = PosInfinity" by (cases v) simp_all
  with Cons show ?case by simp
qed

lemma jsExp_not_NaN: "jsExp v \<noteq> NaN"
  by (simp add: jsExp_def)

lemma overflow_selects_nothing:
  assumes "jsExp (real_of_int s / temperature) = PosInfinity"
  shows "hd (probabilitiesOf ((d, s) # es)) = NaN"
    and "foldl jsAdd (Fin 0) (probabilitiesOf ((d, s) # es)) = NaN"
    and "weightedSelect random (Fin 0) ((d, s) # es) (probabilitiesOf ((d, s) # es)) = None"
proof -
  let ?xs = "map (\<lambda>e. jsExp (real_of_int (snd e) / temperature)) es"
  have "NaN \<notin> set ?xs" by (auto simp: jsExp_def)
  then have sum: "foldl jsAdd (Fin 0) (PosInfinity # ?xs) = PosInfinity"
    by (simp add: foldl_jsAdd_PosInfinity)
  have P: "probabilitiesOf ((d, s) # es) = NaN # map (\<lambda>ex. jsDiv ex PosInfinity) ?xs"
    using assms sum by (simp add: probabilitiesOf_def Let_def)
  show "hd (probabilitiesOf ((d, s) # es)) = NaN" by (simp add: P)
  show "foldl jsAdd (Fin 0) (probabilitiesOf ((d, s) # es)) = NaN"
    by (simp add: P foldl_jsAdd_NaN)
  show "weightedSelect random (Fin 0) ((d, s) # es) (probabilitiesOf ((d, s) # es)) = None"
    by (simp add: P weightedSelect_NaN)
qed

text \<open>
  \<open>Math.exp(764)\<close> is Infinity: \<open>exp (1/2) \<ge> 13/8\<close> and \<open>(13/8) ^ 10 \<ge> 2 ^ 7\<close>, so
  \<open>exp 760 \<ge> 2 ^ 1064\<close>, above the largest double.
\<close>

lemma exp_760_large: "(2 :: real) ^ 1064 \<le> exp 760"
proof -
  have b: "(13 / 8 :: real) \<le> exp (1 / 2)"
    using exp_lower_Taylor_quadratic [of "1 / 2 :: real"] by (simp add: power2_eq_square)
  have a: "(2 :: real) ^ 7 \<le> (13 / 8) ^ 10" by (simp add: power_divide)
  have c: "(13 / 8 :: real) ^ 10 \<le> exp (1 / 2) ^ 10"
    by (rule power_mono [OF b]) simp
  have "(2 :: real) ^ 7 \<le> exp (1 / 2) ^ 10"
    by (rule order_trans [OF a c])
  then have "((2 :: real) ^ 7) ^ 152 \<le> (exp (1 / 2) ^ 10) ^ 152"
    by (rule power_mono) simp
  moreover have "((2 :: real) ^ 7) ^ 152 = 2 ^ 1064"
    by (simp only: power_mult [symmetric]) simp
  moreover have "(exp (1 / 2 :: real) ^ 10) ^ 152 = exp 760"
  proof -
    have "(exp (1 / 2 :: real) ^ 10) ^ 152 = exp (1 / 2) ^ (10 * 152)"
      by (simp only: power_mult)
    also have "\<dots> = exp (of_nat (10 * 152) * (1 / 2))"
      by (rule exp_of_nat_mult [symmetric])
    also have "\<dots> = exp 760" by simp
    finally show ?thesis .
  qed
  ultimately show ?thesis by simp
qed

lemma maxDouble_small: "maxDouble < 2 ^ 1064"
proof -
  have "maxDouble < (2 :: real) ^ 1024" by (simp add: maxDouble_def)
  also have "(2 :: real) ^ 1024 < 2 ^ 1064" by (rule power_strict_increasing) simp_all
  finally show ?thesis .
qed

lemma exp_764_overflows: "jsExp (real_of_int 382 / temperature) = PosInfinity"
proof -
  have "exp (760 :: real) \<le> exp 764" by simp
  with exp_760_large maxDouble_small have "maxDouble < exp (764 :: real)" by linarith
  then show ?thesis by (simp add: jsExp_def temperature_def)
qed

subsection \<open>The trail grid keeps its shape\<close>

lemma checkCollision_valid: "\<not> checkCollision tg p \<Longrightarrow> isValidPosition p"
  by (auto simp: checkCollision_def split: if_splits)

lemma setCell_length: "length (setCell tg p v) = length tg"
  by (simp add: setCell_def)

lemma setCell_rows:
  assumes "row \<in> set (setCell tg p v)"
  shows "row \<in> set tg \<or> (nat (py p) < length tg \<and> row = (tg ! nat (py p))[nat (px p) := v])"
proof (cases "nat (py p) < length tg")
  case True
  from assms have "row \<in> insert ((tg ! nat (py p))[nat (px p) := v]) (set tg)"
    unfolding setCell_def using set_update_subset_insert by fastforce
  with True show ?thesis by auto
next
  case False
  then have "setCell tg p v = tg" by (simp add: setCell_def list_update_beyond)
  with assms show ?thesis by simp
qed

lemma trailShape_setCell:
  assumes "trailShape tg"
  shows "trailShape (setCell tg p v)"
proof -
  have "length row = 52" if r: "row \<in> set (setCell tg p v)" for row
    using setCell_rows [OF r]
  proof
    assume "row \<in> set tg" with assms show ?thesis by (simp add: trailShape_def)
  next
    assume a: "nat (py p) < length tg \<and> row = (tg ! nat (py p))[nat (px p) := v]"
    then have "tg ! nat (py p) \<in> set tg" by simp
    with assms a show ?thesis by (simp add: trailShape_def)
  qed
  with assms show ?thesis by (simp add: trailShape_def setCell_length)
qed

lemma nonneg_setCell:
  assumes "\<forall>row \<in> set tg. \<forall>w \<in> set row. 0 \<le> w" and "0 \<le> v"
  shows "\<forall>row \<in> set (setCell tg p v). \<forall>w \<in> set row. (0::int) \<le> w"
proof (intro ballI)
  fix row w assume r: "row \<in> set (setCell tg p v)" and w: "w \<in> set row"
  from setCell_rows [OF r] show "0 \<le> w"
  proof
    assume "row \<in> set tg" with assms(1) w show ?thesis by blast
  next
    assume a: "nat (py p) < length tg \<and> row = (tg ! nat (py p))[nat (px p) := v]"
    then have "w \<in> insert v (set (tg ! nat (py p)))"
      using w set_update_subset_insert by fastforce
    moreover have "tg ! nat (py p) \<in> set tg" using a by simp
    ultimately show ?thesis using assms by blast
  qed
qed

lemma trailShape_placeCycle: "trailShape tg \<Longrightarrow> trailShape (placeCycle tg c)"
  by (simp add: placeCycle_def trailShape_setCell)

lemma nonneg_placeCycle:
  "\<forall>row \<in> set tg. \<forall>w \<in> set row. 0 \<le> w \<Longrightarrow> 0 < cid c \<Longrightarrow>
     \<forall>row \<in> set (placeCycle tg c). \<forall>w \<in> set row. 0 \<le> w"
  using nonneg_setCell [of tg "cid c" "position c"] by (simp add: placeCycle_def)

lemma trailShape_empty: "trailShape emptyTrail"
  by (simp add: trailShape_def emptyTrail_def)

lemma nonneg_empty: "\<forall>row \<in> set emptyTrail. \<forall>w \<in> set row. 0 \<le> w"
  by (simp add: emptyTrail_def)

lemma foldl_placeCycle_ok:
  "trailShape tg \<Longrightarrow> \<forall>row \<in> set tg. \<forall>w \<in> set row. 0 \<le> w \<Longrightarrow> \<forall>c \<in> set cs. 0 < cid c \<Longrightarrow>
     trailShape (foldl placeCycle tg cs) \<and> (\<forall>row \<in> set (foldl placeCycle tg cs). \<forall>w \<in> set row. 0 \<le> w)"
proof (induction cs arbitrary: tg)
  case Nil
  then show ?case by simp
next
  case (Cons c cs)
  have "trailShape (placeCycle tg c)" using Cons.prems(1) by (rule trailShape_placeCycle)
  moreover have "\<forall>row \<in> set (placeCycle tg c). \<forall>w \<in> set row. 0 \<le> w"
    using Cons.prems by (intro nonneg_placeCycle) auto
  ultimately show ?case using Cons.IH [of "placeCycle tg c"] Cons.prems(3) by simp
qed

subsection \<open>The round reset\<close>

lemma createCycles_unfold:
  "createCycles rnd k =
     [\<lparr> cid = 1, position = \<lparr>px = 8, py = 1\<rparr>, direction = getRandomDirection (rnd k),
        color = ''#00ffff'', glowColor = ''#00ffff'', alive = True, pathfindingMemory = [],
        lastDirectionChange = 0, movesSinceDirectionChange = 0 \<rparr>,
      \<lparr> cid = 2, position = \<lparr>px = 43, py = 1\<rparr>, direction = getRandomDirection (rnd (k + 1)),
        color = ''#ff4757'', glowColor = ''#ff4757'', alive = True, pathfindingMemory = [],
        lastDirectionChange = 0, movesSinceDirectionChange = 0 \<rparr>,
      \<lparr> cid = 3, position = \<lparr>px = 8, py = 5\<rparr>, direction = getRandomDirection (rnd (k + 2)),
        color = ''#ffa502'', glowColor = ''#ffa502'', alive = True, pathfindingMemory = [],
        lastDirectionChange = 0, movesSinceDirectionChange = 0 \<rparr>,
      \<lparr> cid = 4, position = \<lparr>px = 43, py = 5\<rparr>, direction = getRandomDirection (rnd (k + 3)),
        color = ''#7bed9f'', glowColor = ''#7bed9f'', alive = True, pathfindingMemory = [],
        lastDirectionChange = 0, movesSinceDirectionChange = 0 \<rparr>]"
proof -
  have u: "[0..<4] = [0, 1, 2, 3::nat]" by (simp add: upt_rec)
  show ?thesis
    by (simp add: createCycles_def cycleColors_def getStartPositions_def Let_def u numeral_3_eq_3)
qed

lemma createCycles_ok: "c \<in> set (createCycles rnd k) \<Longrightarrow> isValidPosition (position c) \<and> 0 < cid c"
  by (auto simp: createCycles_unfold isValidPosition_def)

lemma reset_fields:
  "state (reset now rnd k g) = PLAYING" "score (reset now rnd k g) = 0"
  "speed (reset now rnd k g) = 200" "lastMoveTime (reset now rnd k g) = 0"
  "particles (reset now rnd k g) = []" "gameStartTime (reset now rnd k g) = now"
  "frameCount (reset now rnd k g) = 0" "cycles (reset now rnd k g) = createCycles rnd k"
  "trailGrid (reset now rnd k g) = foldl placeCycle emptyTrail (createCycles rnd k)"
  "grid (reset now rnd k g) = grid g" "restartTime (reset now rnd k g) = restartTime g"
  by (simp_all add: reset_def Let_def)

lemma wellFormed_reset: "wellFormed (reset now rnd k g)"
  using foldl_placeCycle_ok [OF trailShape_empty nonneg_empty, of "createCycles rnd k"]
    createCycles_ok [of _ rnd k]
  by (simp add: wellFormed_def reset_fields)


subsection \<open>One cycle's move\<close>

text \<open>What the loop body does to the cycle at index \<open>i\<close>, to the trail and to the rest.\<close>

lemma moveCycle_result:
  fixes g :: game and i k :: nat and rnd :: "nat \<Rightarrow> real"
  assumes "i < length (cycles g)"
  defines "c \<equiv> cycles g ! i"
  defines "d \<equiv> fst (makeAIDecision (trailGrid g) (grid g) c rnd k)"
  defines "g' \<equiv> fst (moveCycle rnd i (g, k))"
  shows "length (cycles g') = length (cycles g)"
    and "\<And>j. j \<noteq> i \<Longrightarrow> cycles g' ! j = cycles g ! j"
    and "cid (cycles g' ! i) = cid c"
    and "direction (cycles g' ! i) = d"
    and "checkCollision (trailGrid g) (getNextPositionInDirection (position c) d) \<Longrightarrow>
           \<not> alive (cycles g' ! i) \<and> position (cycles g' ! i) = position c \<and>
           pathfindingMemory (cycles g' ! i) = pathfindingMemory c \<and>
           trailGrid g' = trailGrid g"
    and "\<not> checkCollision (trailGrid g) (getNextPositionInDirection (position c) d) \<Longrightarrow>
           alive (cycles g' ! i) = alive c \<and>
           position (cycles g' ! i) = getNextPositionInDirection (position c) d \<and>
           trailGrid g' = placeCycle (trailGrid g) c \<and> particles g' = particles g"
    and "grid g' = grid g \<and> state g' = state g \<and> score g' = score g \<and> speed g' = speed g \<and>
         lastMoveTime g' = lastMoveTime g \<and> restartTime g' = restartTime g \<and>
         gameStartTime g' = gameStartTime g \<and> frameCount g' = frameCount g"
  using assms(1) unfolding c_def d_def g'_def
  by (auto simp: moveCycle_def Let_def placeCycle_def split: prod.splits)

lemma trailShape_moveCycle:
  assumes "i < length (cycles g)" and "trailShape (trailGrid g)"
  shows "trailShape (trailGrid (fst (moveCycle rnd i (g, k))))"
  using moveCycle_result(5,6) [OF assms(1), of rnd k] assms(2)
  by (cases "checkCollision (trailGrid g) (getNextPositionInDirection (position (cycles g ! i))
        (fst (makeAIDecision (trailGrid g) (grid g) (cycles g ! i) rnd k)))")
     (simp_all add: trailShape_placeCycle)

lemma wellFormed_moveCycle:
  assumes i: "i < length (cycles g)" and wf: "wellFormed g"
  shows "wellFormed (fst (moveCycle rnd i (g, k)))"
proof -
  let ?c = "cycles g ! i"
  let ?d = "fst (makeAIDecision (trailGrid g) (grid g) ?c rnd k)"
  let ?g = "fst (moveCycle rnd i (g, k))"
  let ?hit = "checkCollision (trailGrid g) (getNextPositionInDirection (position ?c) ?d)"
  have cin: "?c \<in> set (cycles g)" using i by simp
  then have cok: "isValidPosition (position ?c) \<and> 0 < cid ?c" using wf by (simp add: wellFormed_def)
  have shape: "trailShape (trailGrid ?g)"
    using trailShape_moveCycle [OF i] wf by (simp add: wellFormed_def)
  have nonneg: "\<forall>row \<in> set (trailGrid ?g). \<forall>w \<in> set row. 0 \<le> w"
  proof (cases ?hit)
    case True
    with moveCycle_result(5) [OF i, of rnd k] wf show ?thesis by (simp add: wellFormed_def)
  next
    case False
    with moveCycle_result(6) [OF i, of rnd k] have "trailGrid ?g = placeCycle (trailGrid g) ?c" by simp
    then show ?thesis using nonneg_placeCycle [of "trailGrid g" ?c] wf cok by (simp add: wellFormed_def)
  qed
  have pos_i: "isValidPosition (position (cycles ?g ! i))"
  proof (cases ?hit)
    case True
    with moveCycle_result(5) [OF i, of rnd k] cok show ?thesis by simp
  next
    case False
    with moveCycle_result(6) [OF i, of rnd k] checkCollision_valid [OF False] show ?thesis by simp
  qed
  have len: "length (cycles ?g) = length (cycles g)" by (rule moveCycle_result(1) [OF i])
  have "isValidPosition (position c') \<and> 0 < cid c'" if "c' \<in> set (cycles ?g)" for c'
  proof -
    from that obtain j where j: "j < length (cycles ?g)" "c' = cycles ?g ! j"
      by (auto simp: in_set_conv_nth)
    show ?thesis
    proof (cases "j = i")
      case True
      with j pos_i moveCycle_result(3) [OF i, of rnd k] cok show ?thesis by simp
    next
      case False
      from moveCycle_result(2) [OF i False, of rnd k] j len
      have "c' \<in> set (cycles g)" by simp
      with wf show ?thesis by (simp add: wellFormed_def)
    qed
  qed
  with shape nonneg show ?thesis by (simp add: wellFormed_def)
qed

text \<open>The whole \<open>forEach\<close>.\<close>

lemma moveCycles_invariant:
  fixes g :: game and k :: nat and rnd :: "nat \<Rightarrow> real"
  assumes "\<forall>i \<in> set idx. i < length (cycles g)" and "wellFormed g"
  defines "g' \<equiv> fst (foldl (\<lambda>gk i. moveCycle rnd i gk) (g, k) idx)"
  shows "wellFormed g' \<and> length (cycles g') = length (cycles g) \<and>
         state g' = state g \<and> gameStartTime g' = gameStartTime g \<and> grid g' = grid g \<and>
         restartTime g' = restartTime g \<and> frameCount g' = frameCount g"
  using assms(1,2) unfolding g'_def
proof (induction idx arbitrary: g k)
  case Nil
  then show ?case by simp
next
  case (Cons i idx)
  let ?gk = "moveCycle rnd i (g, k)"
  have i: "i < length (cycles g)" using Cons.prems(1) by simp
  have wf1: "wellFormed (fst ?gk)" by (rule wellFormed_moveCycle [OF i Cons.prems(2)])
  have len1: "length (cycles (fst ?gk)) = length (cycles g)" by (rule moveCycle_result(1) [OF i])
  have rest: "\<forall>j \<in> set idx. j < length (cycles (fst ?gk))" using Cons.prems(1) len1 by simp
  from Cons.IH [OF rest wf1, of "snd ?gk"] moveCycle_result(7) [OF i, of rnd k] len1
  show ?case by simp
qed


lemma aliveIndices_length: "length (aliveIndices g) = length (filter alive (cycles g))"
proof -
  have "map ((!) (cycles g)) (aliveIndices g) = filter alive (cycles g)"
    unfolding aliveIndices_def
    by (subst (3) map_nth [symmetric]) (simp add: filter_map comp_def del: map_nth)
  then have "length (map ((!) (cycles g)) (aliveIndices g)) = length (filter alive (cycles g))"
    by simp
  then show ?thesis by simp
qed

lemma aliveIndices_bound: "i \<in> set (aliveIndices g) \<Longrightarrow> i < length (cycles g)"
  by (simp add: aliveIndices_def)

subsection \<open>The branches of update\<close>
lemma update_restart_branch:
  assumes "state g = PLAYING" and "\<not> t - lastMoveTime g < real_of_int (speed g)"
    and "length (filter alive (cycles g)) \<le> 1"
  shows "update t rnd now g = initiateRestart t rnd (framed g)"
  using assms aliveIndices_length [of "framed g"]
  by (simp add: update_def Let_def framed_def)

lemma update_reset_branch:
  assumes "state g = RESTARTING" and "t - restartTime g > restartDelay"
  shows "update t rnd now g = reset now rnd 0 (framed g)"
  using assms by (simp add: update_def Let_def framed_def)

lemma update_move_branch:
  assumes "state g = PLAYING" and "\<not> t - lastMoveTime g < real_of_int (speed g)"
    and "\<not> length (filter alive (cycles g)) \<le> 1"
  shows "update t rnd now g =
     (let g1 = fst (foldl (\<lambda>gk i. moveCycle rnd i gk) (framed g, 0) (aliveIndices (framed g)))
      in g1\<lparr> score := \<lfloor>(t - gameStartTime g1) / 1000\<rfloor> * 10
                 + int (length (aliveIndices (framed g))) * 5 + trailLength (trailGrid g1),
             speed := max 80 (200 - \<lfloor>(t - gameStartTime g1) / 1000 / 10\<rfloor> * 20),
             lastMoveTime := t \<rparr>)"
  using assms aliveIndices_length [of "framed g"]
  by (simp add: update_def Let_def framed_def)

lemma update_idle_branch:
  assumes "(state g = RESTARTING \<and> \<not> t - restartTime g > restartDelay) \<or>
           (state g = PLAYING \<and> t - lastMoveTime g < real_of_int (speed g))"
  shows "update t rnd now g = framed g"
  using assms by (auto simp: update_def Let_def framed_def)

lemma wellFormed_framed: "wellFormed g \<Longrightarrow> wellFormed (framed g)"
  by (simp add: wellFormed_def framed_def)

lemma wellFormed_update:
  assumes "wellFormed g"
  shows "wellFormed (update t rnd now g)"
proof -
  consider (idle) "update t rnd now g = framed g"
    | (reset) "update t rnd now g = reset now rnd 0 (framed g)"
    | (restart) "update t rnd now g = initiateRestart t rnd (framed g)"
    | (move) "state g = PLAYING" "\<not> t - lastMoveTime g < real_of_int (speed g)"
        "\<not> length (filter alive (cycles g)) \<le> 1"
  proof (cases "state g")
    case PLAYING
    show ?thesis
    proof (cases "t - lastMoveTime g < real_of_int (speed g)")
      case True
      with PLAYING idle update_idle_branch [of g t rnd now] show ?thesis by blast
    next
      case late: False
      show ?thesis
      proof (cases "length (filter alive (cycles g)) \<le> 1")
        case True
        from update_restart_branch [OF PLAYING late True] restart show ?thesis by blast
      next
        case False
        with PLAYING late move show ?thesis by blast
      qed
    qed
  next
    case RESTARTING
    show ?thesis
    proof (cases "t - restartTime g > restartDelay")
      case True
      from update_reset_branch [OF RESTARTING True] reset show ?thesis by blast
    next
      case False
      with RESTARTING idle update_idle_branch [of g t rnd now] show ?thesis by blast
    qed
  qed
  then show ?thesis
  proof cases
    case idle
    with assms show ?thesis by (simp add: wellFormed_framed)
  next
    case reset
    then show ?thesis by (simp add: wellFormed_reset)
  next
    case restart
    with wellFormed_framed [OF assms] show ?thesis
      by (simp add: wellFormed_def initiateRestart_def)
  next
    case move
    have "wellFormed (fst (foldl (\<lambda>gk i. moveCycle rnd i gk) (framed g, 0) (aliveIndices (framed g))))"
      using moveCycles_invariant [of "aliveIndices (framed g)" "framed g" rnd 0]
        aliveIndices_bound [of _ "framed g"] wellFormed_framed [OF assms] by blast
    then show ?thesis
      unfolding update_move_branch [OF move] by (simp add: Let_def wellFormed_def)
  qed
qed

lemma wellFormed_reachable: "reachable g \<Longrightarrow> wellFormed g"
proof (induction rule: reachable.induct)
  case (start gr now rnd)
  then show ?case by (simp add: newGame_def wellFormed_reset)
next
  case (step g t rnd now)
  then show ?case by (simp add: wellFormed_update)
next
  case (restart g now rnd)
  then show ?case by (simp add: forceRestart_def wellFormed_reset)
qed

subsection \<open>What a move does to the trail\<close>

lemma next_differs: "getNextPositionInDirection p d \<noteq> p"
  by (cases d) (auto simp: getNextPositionInDirection_def Let_def dest: arg_cong [of _ _ px] arg_cong [of _ _ py])

lemma setCell_other:
  assumes "isValidPosition p" and "isValidPosition q" and "p \<noteq> q"
  shows "setCell tg p v ! nat (py q) ! nat (px q) = tg ! nat (py q) ! nat (px q)"
proof (cases "nat (py p) = nat (py q)")
  case True
  with assms have "nat (px p) \<noteq> nat (px q)"
    by (cases p, cases q) (auto simp: isValidPosition_def)
  then show ?thesis
    by (cases "nat (py p) < length tg") (simp_all add: setCell_def True list_update_beyond)
next
  case False
  then show ?thesis by (simp add: setCell_def)
qed

text \<open>
  A move leaves the entered cell unmarked: right after the loop body has moved a cycle,
  \<open>checkCollision\<close> is still false on the cell the cycle now stands on.
\<close>

lemma moveCycle_head_unmarked:
  fixes g :: game and i k :: nat and rnd :: "nat \<Rightarrow> real"
  assumes i: "i < length (cycles g)" and wf: "wellFormed g"
  defines "g' \<equiv> fst (moveCycle rnd i (g, k))"
  assumes moved: "position (cycles g' ! i) \<noteq> position (cycles g ! i)"
  shows "\<not> checkCollision (trailGrid g') (position (cycles g' ! i))"
proof -
  let ?c = "cycles g ! i"
  let ?d = "fst (makeAIDecision (trailGrid g) (grid g) ?c rnd k)"
  let ?n = "getNextPositionInDirection (position ?c) ?d"
  have free: "\<not> checkCollision (trailGrid g) ?n"
    using moveCycle_result(5) [OF i, of rnd k] moved unfolding g'_def by blast
  have res: "position (cycles g' ! i) = ?n" "trailGrid g' = placeCycle (trailGrid g) ?c"
    using moveCycle_result(6) [OF i free] unfolding g'_def by simp_all
  have vn: "isValidPosition ?n" by (rule checkCollision_valid [OF free])
  have vc: "isValidPosition (position ?c)" using wf i by (simp add: wellFormed_def)
  have "placeCycle (trailGrid g) ?c ! nat (py ?n) ! nat (px ?n) = trailGrid g ! nat (py ?n) ! nat (px ?n)"
    using setCell_other [OF vc vn] next_differs [of "position ?c" ?d] vc
    by (simp add: placeCycle_def)
  with free vn show ?thesis by (simp add: res checkCollision_def)
qed


lemma setCell_same:
  assumes "trailShape tg" and "isValidPosition p"
  shows "setCell tg p v ! nat (py p) ! nat (px p) = v"
proof -
  have "0 \<le> py p \<and> py p < 7" and x: "0 \<le> px p \<and> px p < 52"
    using assms(2) by (simp_all add: isValidPosition_def)
  then have "nat (py p) < 7" by linarith
  then have y: "nat (py p) < length tg" using assms(1) by (simp add: trailShape_def)
  then have "tg ! nat (py p) \<in> set tg" by simp
  then have "length (tg ! nat (py p)) = 52" using assms(1) by (simp add: trailShape_def)
  with x have "nat (px p) < length (tg ! nat (py p))" by linarith
  with y show ?thesis by (simp add: setCell_def)
qed

text \<open>A move never clears a cell: a marked cell stays marked.\<close>

lemma moveCycle_keeps_marks:
  fixes g :: game and i k :: nat and rnd :: "nat \<Rightarrow> real"
  assumes i: "i < length (cycles g)" and wf: "wellFormed g" and q: "isValidPosition q"
    and marked: "trailGrid g ! nat (py q) ! nat (px q) \<noteq> 0"
  shows "trailGrid (fst (moveCycle rnd i (g, k))) ! nat (py q) ! nat (px q) \<noteq> 0"
proof -
  let ?c = "cycles g ! i"
  let ?d = "fst (makeAIDecision (trailGrid g) (grid g) ?c rnd k)"
  let ?g = "fst (moveCycle rnd i (g, k))"
  have c: "isValidPosition (position ?c) \<and> 0 < cid ?c" using wf i by (simp add: wellFormed_def)
  have shape: "trailShape (trailGrid g)" using wf by (simp add: wellFormed_def)
  show ?thesis
  proof (cases "checkCollision (trailGrid g) (getNextPositionInDirection (position ?c) ?d)")
    case True
    with moveCycle_result(5) [OF i, of rnd k] marked show ?thesis by simp
  next
    case False
    then have t: "trailGrid ?g = setCell (trailGrid g) (position ?c) (cid ?c)"
      using moveCycle_result(6) [OF i, of rnd k] c by (simp add: placeCycle_def)
    show ?thesis
    proof (cases "position ?c = q")
      case True
      with setCell_same [OF shape, of "position ?c" "cid ?c"] c show ?thesis by (simp add: t)
    next
      case False
      with setCell_other [of "position ?c" q "trailGrid g" "cid ?c"] c q marked
      show ?thesis by (simp add: t)
    qed
  qed
qed

subsection \<open>Evaluating concrete rounds\<close>

text \<open>
  \<open>pi\<close>, \<open>cos\<close>, \<open>sin\<close> and \<open>exp\<close> on the reals do not compute, so the particle geometry and the
  softmax stay symbolic when a concrete round is evaluated. When \<open>Math.random()\<close> returns 0
  the best-scored candidate is taken, whatever the probabilities are: the selection loop
  returns it at its first iteration, or, when the first probability is NaN, the statement
  after the loop does (\<open>makeAIDecision_greedy\<close>).
\<close>

declare explosionParticle_def [code del]
declare probabilitiesOf_def [code del]

lemma makeAIDecision_code [code]:
  "makeAIDecision tg gr c rnd k =
     (if getSafeDirections tg c = [] then (direction c, k)
      else if rnd k \<le> 0 then (fst (hd (evaluationsOf tg gr c)), k + 1)
      else (case weightedSelect (rnd k) (Fin 0) (evaluationsOf tg gr c) (probabilitiesOf (evaluationsOf tg gr c)) of
              Some d \<Rightarrow> (d, k + 1)
            | None \<Rightarrow> (fst (evaluationsOf tg gr c ! 0), k + 1)))"
  using makeAIDecision_greedy [of rnd k tg c gr]
  by (auto simp: makeAIDecision_def Let_def)

lemma positive_cells:
  assumes "\<forall>row \<in> set tg. \<forall>w \<in> set row. (0::int) \<le> w"
  shows "filter (\<lambda>cell. cell > 0) (concat tg) = filter (\<lambda>cell. cell \<noteq> 0) (concat tg)"
proof (rule filter_cong [OF refl])
  fix v assume "v \<in> set (concat tg)"
  with assms have "0 \<le> v" by auto
  then show "(v > 0) = (v \<noteq> 0)" by auto
qed


lemma reachable_gameLoop: "reachable g \<Longrightarrow> reachable (gameLoop rnd now ts g)"
  unfolding gameLoop_def by (induction ts arbitrary: g) (simp_all add: reachable.step)

lemma reachable_rounds: "reachable (greedyRound n)" "reachable (chaseRound n)"
  by (simp_all add: greedyRound_def chaseRound_def reachable_gameLoop reachable.start)

subsection \<open>The score of a tick\<close>

text \<open>
  What \<open>update\<close> writes into \<open>score\<close> after the loop: the count of cycles is the length of
  \<open>aliveCycles\<close>, the array filtered before the loop, so it is the number of cycles alive
  when the tick started.
\<close>

lemma score_after_tick:
  assumes "reachable g" and "state g = PLAYING"
    and "\<not> t - lastMoveTime g < real_of_int (speed g)"
    and "2 \<le> length (filter alive (cycles g))"
  shows "score (update t rnd now g) =
           \<lfloor>(t - gameStartTime g) / 1000\<rfloor> * 10 +
           int (length (filter alive (cycles g))) * 5 +
           int (length (filter (\<lambda>cell. cell \<noteq> 0) (concat (trailGrid (update t rnd now g)))))"
proof -
  let ?g1 = "fst (foldl (\<lambda>gk i. moveCycle rnd i gk) (framed g, 0) (aliveIndices (framed g)))"
  have wf: "wellFormed (framed g)"
    using wellFormed_reachable [OF assms(1)] by (rule wellFormed_framed)
  have inv: "wellFormed ?g1 \<and> gameStartTime ?g1 = gameStartTime (framed g)"
    using moveCycles_invariant [of "aliveIndices (framed g)" "framed g" rnd 0]
      aliveIndices_bound [of _ "framed g"] wf by blast
  have move: "\<not> length (filter alive (cycles g)) \<le> 1" using assms(4) by simp
  have u: "update t rnd now g =
      ?g1\<lparr> score := \<lfloor>(t - gameStartTime ?g1) / 1000\<rfloor> * 10
                 + int (length (aliveIndices (framed g))) * 5 + trailLength (trailGrid ?g1),
             speed := max 80 (200 - \<lfloor>(t - gameStartTime ?g1) / 1000 / 10\<rfloor> * 20),
             lastMoveTime := t \<rparr>"
    using update_move_branch [OF assms(2,3) move, of rnd now] by (simp add: Let_def)
  have cells: "trailLength (trailGrid ?g1) =
      int (length (filter (\<lambda>cell. cell \<noteq> 0) (concat (trailGrid ?g1))))"
    using positive_cells [of "trailGrid ?g1"] inv by (simp add: trailLength_def wellFormed_def)
  have n: "length (aliveIndices (framed g)) = length (filter alive (cycles g))"
    by (simp add: aliveIndices_length framed_def)
  have gs: "gameStartTime ?g1 = gameStartTime g" using inv by (simp add: framed_def)
  have sc: "score (update t rnd now g) =
      \<lfloor>(t - gameStartTime ?g1) / 1000\<rfloor> * 10
        + int (length (aliveIndices (framed g))) * 5 + trailLength (trailGrid ?g1)"
    by (subst u) simp
  have tr: "trailGrid (update t rnd now g) = trailGrid ?g1"
    by (subst u) simp
  show ?thesis unfolding sc tr gs n cells ..
qed

section \<open>The claims\<close>

text \<open>
  C1 (the code breaks it). Claim: once a Trail-grid cell holds a non-zero value it never
  changes until the next full reset; a write to a non-zero cell is a no-op. The code: a
  cycle's own cell is only marked when the cycle leaves it, so a second cycle can drive
  into the cell a first one stands on, and each of them assigns its id to that cell when
  it leaves: a move never clears a cell (\<open>moveCycle_keeps_marks\<close>), but it can replace
  the id in it. In the round \<open>chaseRound\<close> (a reachable state, no reset in between) cell
  (25,3) holds 3 after tick 20, cycle 2 stands on it, and the tick at 4200 ms turns the
  cell into 2.
\<close>

theorem trail_cell_overwritten:
  "reachable (chaseRound 20) \<and>
   tickReport 4200 25 3 (chaseRound 20) =
     ((PLAYING, 3,
       [(1, \<lparr>px = 19, py = 2\<rparr>, LEFT), (2, \<lparr>px = 25, py = 3\<rparr>, LEFT),
        (3, \<lparr>px = 24, py = 3\<rparr>, LEFT), (4, \<lparr>px = 32, py = 4\<rparr>, RIGHT)]),
      (PLAYING, 2,
       [(1, \<lparr>px = 18, py = 2\<rparr>, LEFT), (2, \<lparr>px = 24, py = 3\<rparr>, LEFT),
        (3, \<lparr>px = 23, py = 3\<rparr>, LEFT), (4, \<lparr>px = 33, py = 4\<rparr>, RIGHT)]))"
proof -
  have "tickReport 4200 25 3 (chaseRound 20) =
     ((PLAYING, 3,
       [(1, \<lparr>px = 19, py = 2\<rparr>, LEFT), (2, \<lparr>px = 25, py = 3\<rparr>, LEFT),
        (3, \<lparr>px = 24, py = 3\<rparr>, LEFT), (4, \<lparr>px = 32, py = 4\<rparr>, RIGHT)]),
      (PLAYING, 2,
       [(1, \<lparr>px = 18, py = 2\<rparr>, LEFT), (2, \<lparr>px = 24, py = 3\<rparr>, LEFT),
        (3, \<lparr>px = 23, py = 3\<rparr>, LEFT), (4, \<lparr>px = 33, py = 4\<rparr>, RIGHT)]))"
    by code_simp
  then show ?thesis using reachable_rounds(2) [of 20] by simp
qed







text \<open>
  C4. The heading \<open>makeAIDecision\<close> returns is never the opposite of the cycle's current
  heading; if some non-reverse heading has an unblocked adjacent cell, the returned heading
  is such a heading; if none has, the current heading is returned. This holds for every
  cycle, trail grid, activity grid and random number.
\<close>

theorem makeAIDecision_heading:
  "fst (makeAIDecision tg gr c rnd k) \<noteq> getOppositeDirection (direction c) \<and>
   ((\<exists>d. d \<noteq> getOppositeDirection (direction c) \<and>
          \<not> checkCollision tg (getNextPositionInDirection (position c) d)) \<longrightarrow>
      \<not> checkCollision tg (getNextPositionInDirection (position c) (fst (makeAIDecision tg gr c rnd k)))) \<and>
   (\<not> (\<exists>d. d \<noteq> getOppositeDirection (direction c) \<and>
          \<not> checkCollision tg (getNextPositionInDirection (position c) d)) \<longrightarrow>
      fst (makeAIDecision tg gr c rnd k) = direction c)"
proof (cases "getSafeDirections tg c = []")
  case True
  then have "\<And>d. d \<notin> set (getSafeDirections tg c)" by simp
  then have none: "\<not> (\<exists>d. d \<noteq> getOppositeDirection (direction c) \<and>
          \<not> checkCollision tg (getNextPositionInDirection (position c) d))"
    unfolding safe_iff by blast
  from True have "fst (makeAIDecision tg gr c rnd k) = direction c"
    by (simp add: makeAIDecision_stuck)
  with none show ?thesis using opposite_neq [of "direction c"] by metis
next
  case False
  then obtain d0 where "d0 \<in> set (getSafeDirections tg c)" by (cases "getSafeDirections tg c") auto
  then have some: "\<exists>d. d \<noteq> getOppositeDirection (direction c) \<and>
          \<not> checkCollision tg (getNextPositionInDirection (position c) d)"
    unfolding safe_iff by blast
  from makeAIDecision_candidate [OF False, of gr rnd k]
  have "fst (makeAIDecision tg gr c rnd k) \<noteq> getOppositeDirection (direction c) \<and>
        \<not> checkCollision tg (getNextPositionInDirection (position c) (fst (makeAIDecision tg gr c rnd k)))"
    unfolding safe_iff .
  with some show ?thesis by blast
qed

text \<open>C4 at a fresh round (a candidate exists) and at a cornered cycle (none exists).\<close>

theorem makeAIDecision_heading_witness:
  "getNextPositionInDirection (position (cycles (newGame quietGrid 0 (\<lambda>_. 0)) ! 0)) LEFT = \<lparr>px = 7, py = 1\<rparr> \<and>
   LEFT \<noteq> getOppositeDirection (direction (cycles (newGame quietGrid 0 (\<lambda>_. 0)) ! 0)) \<and>
   \<not> checkCollision (trailGrid (newGame quietGrid 0 (\<lambda>_. 0))) \<lparr>px = 7, py = 1\<rparr> \<and>
   \<not> checkCollision (trailGrid (newGame quietGrid 0 (\<lambda>_. 0)))
       (getNextPositionInDirection (position (cycles (newGame quietGrid 0 (\<lambda>_. 0)) ! 0))
         (fst (makeAIDecision (trailGrid (newGame quietGrid 0 (\<lambda>_. 0))) quietGrid
                (cycles (newGame quietGrid 0 (\<lambda>_. 0)) ! 0) (\<lambda>_. 1 / 2) 0))) \<and>
   getSafeDirections (trailGrid (cornered)) (cycles (cornered) ! 0) = [] \<and>
   fst (makeAIDecision (trailGrid (cornered)) quietGrid (cycles (cornered) ! 0) (\<lambda>_. 1 / 2) 0)
     = direction (cycles (cornered) ! 0)"
proof -
  let ?G = "newGame quietGrid 0 (\<lambda>_. 0)"
  let ?c = "cycles ?G ! 0"
  let ?b = "cycles (cornered) ! 0"
  have n: "getNextPositionInDirection (position ?c) LEFT = \<lparr>px = 7, py = 1\<rparr>" by code_simp
  have o: "LEFT \<noteq> getOppositeDirection (direction ?c)" by code_simp
  have f: "\<not> checkCollision (trailGrid ?G) \<lparr>px = 7, py = 1\<rparr>" by code_simp
  have s: "getSafeDirections (trailGrid (cornered)) ?b = []" by code_simp
  have none: "\<not> (\<exists>d. d \<noteq> getOppositeDirection (direction ?b) \<and>
          \<not> checkCollision (trailGrid (cornered)) (getNextPositionInDirection (position ?b) d))"
    using safe_iff [of _ "trailGrid (cornered)" ?b] s by simp
  from makeAIDecision_heading [of "trailGrid ?G" quietGrid ?c "\<lambda>_. 1 / 2" 0]
    makeAIDecision_heading [of "trailGrid (cornered)" quietGrid ?b "\<lambda>_. 1 / 2" 0]
    n o f s none
  show ?thesis by metis
qed

text \<open>
  C5 (the code breaks it). Claim: the alive cycles' positions are pairwise distinct at
  every tick, and a cycle entering a cell another cycle has visited dies. The code checks
  the Trail grid only, and the cell a cycle stands on is not in it (after the spawn).
  A move leaves the entered cell unmarked (\<open>moveCycle_head_unmarked\<close>).
  In the round \<open>greedyRound\<close>, after 19 ticks cycle 1 stands on (26,2), cycle 3 on (26,4)
  and cell (26,3) is empty; in the tick at 4000 ms cycle 1 enters (26,3), then cycle 3
  enters it too, and both are alive on the same cell.
\<close>

theorem heads_share_cell:
  "reachable (greedyRound 19) \<and>
   tickReport 4000 26 3 (greedyRound 19) =
     ((PLAYING, 0,
       [(1, \<lparr>px = 26, py = 2\<rparr>, RIGHT), (2, \<lparr>px = 33, py = 2\<rparr>, RIGHT),
        (3, \<lparr>px = 26, py = 4\<rparr>, RIGHT), (4, \<lparr>px = 31, py = 4\<rparr>, RIGHT)]),
      (PLAYING, 0,
       [(1, \<lparr>px = 26, py = 3\<rparr>, DOWN), (2, \<lparr>px = 34, py = 2\<rparr>, RIGHT),
        (3, \<lparr>px = 26, py = 3\<rparr>, UP), (4, \<lparr>px = 32, py = 4\<rparr>, RIGHT)]))"
proof -
  have "tickReport 4000 26 3 (greedyRound 19) =
     ((PLAYING, 0,
       [(1, \<lparr>px = 26, py = 2\<rparr>, RIGHT), (2, \<lparr>px = 33, py = 2\<rparr>, RIGHT),
        (3, \<lparr>px = 26, py = 4\<rparr>, RIGHT), (4, \<lparr>px = 31, py = 4\<rparr>, RIGHT)]),
      (PLAYING, 0,
       [(1, \<lparr>px = 26, py = 3\<rparr>, DOWN), (2, \<lparr>px = 34, py = 2\<rparr>, RIGHT),
        (3, \<lparr>px = 26, py = 3\<rparr>, UP), (4, \<lparr>px = 32, py = 4\<rparr>, RIGHT)]))"
    by code_simp
  then show ?thesis using reachable_rounds(1) [of 19] by simp
qed

text \<open>
  C6 (the code breaks it). Claim: after a permitted PLAYING tick the score is
  \<open>survivalSeconds * 10 + aliveCount * 5 + trailCells\<close> with \<open>aliveCount\<close> the number of
  cycles alive after the tick's moves. The code takes \<open>aliveCycles.length\<close>, the array it
  filtered before the loop (\<open>score_after_tick\<close>), so the cycles that crashed in the tick
  still count. In the round \<open>greedyRound\<close> the tick at 7800 ms starts with four cycles
  alive and cycle 2 crashes in it: the score is 226 = 7 * 10 + 4 * 5 + 136, with three
  cycles alive and 136 non-zero cells afterwards. In the position \<open>cornered\<close> the tick at
  2400 ms crashes all four cycles and the score is 84 = 2 * 10 + 4 * 5 + 44.
\<close>

theorem score_counts_crashed_cycles:
  "reachable (greedyRound 38) \<and>
   scoreReport 7800 (greedyRound 38) = (226, 7, 4, 3, 136) \<and>
   scoreReport 2400 cornered = (84, 2, 4, 0, 44)"
proof -
  have a: "scoreReport 7800 (greedyRound 38) = (226, 7, 4, 3, 136)" by code_simp
  have b: "scoreReport 2400 cornered = (84, 2, 4, 0, 44)" by code_simp
  show ?thesis using a b reachable_rounds(1) [of 38] by simp
qed


text \<open>
  C8. In every reachable state every alive cycle's position satisfies 0 \<le> x < 52 and
  0 \<le> y < 7; out-of-bounds cells are always blocked; and when the loop body changes a
  cycle's position, the new position is the next cell in its heading and that cell was
  not blocked.
\<close>

theorem positions_in_bounds:
  "(reachable g \<longrightarrow>
      (\<forall>c \<in> set (cycles g). alive c \<longrightarrow>
         0 \<le> px (position c) \<and> px (position c) < 52 \<and> 0 \<le> py (position c) \<and> py (position c) < 7)) \<and>
   (\<not> isValidPosition p \<longrightarrow> checkCollision tg p) \<and>
   (i < length (cycles g1) \<longrightarrow>
      position (cycles (fst (moveCycle rnd i (g1, k))) ! i) \<noteq> position (cycles g1 ! i) \<longrightarrow>
        position (cycles (fst (moveCycle rnd i (g1, k))) ! i) =
          getNextPositionInDirection (position (cycles g1 ! i))
            (direction (cycles (fst (moveCycle rnd i (g1, k))) ! i)) \<and>
        \<not> checkCollision (trailGrid g1) (position (cycles (fst (moveCycle rnd i (g1, k))) ! i)))"
proof (intro conjI impI)
  assume "reachable g"
  then have "wellFormed g" by (rule wellFormed_reachable)
  then show "\<forall>c \<in> set (cycles g). alive c \<longrightarrow>
         0 \<le> px (position c) \<and> px (position c) < 52 \<and> 0 \<le> py (position c) \<and> py (position c) < 7"
    by (simp add: wellFormed_def isValidPosition_def)
next
  assume "\<not> isValidPosition p"
  then show "checkCollision tg p" by (simp add: checkCollision_def)
next
  let ?g = "fst (moveCycle rnd i (g1, k))"
  let ?c = "cycles g1 ! i"
  let ?d = "fst (makeAIDecision (trailGrid g1) (grid g1) ?c rnd k)"
  assume i: "i < length (cycles g1)" and moved: "position (cycles ?g ! i) \<noteq> position ?c"
  have free: "\<not> checkCollision (trailGrid g1) (getNextPositionInDirection (position ?c) ?d)"
    using moveCycle_result(5) [OF i, of rnd k] moved by blast
  from moveCycle_result(6) [OF i free] moveCycle_result(4) [OF i, of rnd k]
  show "position (cycles ?g ! i) =
          getNextPositionInDirection (position ?c) (direction (cycles ?g ! i))"
    by simp
  from moveCycle_result(6) [OF i free] free
  show "\<not> checkCollision (trailGrid g1) (position (cycles ?g ! i))" by simp
qed

text \<open>C8 at a fresh round, its first cycle and an out-of-bounds cell.\<close>

theorem positions_in_bounds_witness:
  "reachable (newGame quietGrid 0 (\<lambda>_. 0)) \<and>
   alive (cycles (newGame quietGrid 0 (\<lambda>_. 0)) ! 0) \<and>
   px (position (cycles (newGame quietGrid 0 (\<lambda>_. 0)) ! 0)) < 52 \<and>
   \<not> isValidPosition \<lparr>px = - 1, py = 0\<rparr> \<and> checkCollision emptyTrail \<lparr>px = - 1, py = 0\<rparr> \<and>
   0 < length (cycles (newGame quietGrid 0 (\<lambda>_. 0))) \<and>
   position (cycles (fst (moveCycle (\<lambda>_. 0) 0 (newGame quietGrid 0 (\<lambda>_. 0), 0))) ! 0)
     \<noteq> position (cycles (newGame quietGrid 0 (\<lambda>_. 0)) ! 0) \<and>
   \<not> checkCollision (trailGrid (newGame quietGrid 0 (\<lambda>_. 0)))
       (position (cycles (fst (moveCycle (\<lambda>_. 0) 0 (newGame quietGrid 0 (\<lambda>_. 0), 0))) ! 0))"
proof -
  let ?G = "newGame quietGrid 0 (\<lambda>_. 0)"
  have r: "reachable ?G" by (rule reachable.start)
  have a: "alive (cycles ?G ! 0)" by code_simp
  have m: "cycles ?G ! 0 \<in> set (cycles ?G)" by code_simp
  have v: "\<not> isValidPosition \<lparr>px = - 1, py = 0\<rparr>" by code_simp
  have l: "0 < length (cycles ?G)" by code_simp
  have n: "position (cycles (fst (moveCycle (\<lambda>_. 0) 0 (?G, 0))) ! 0) \<noteq> position (cycles ?G ! 0)"
    by code_simp
  from positions_in_bounds [of ?G "\<lparr>px = - 1, py = 0\<rparr>" emptyTrail 0 ?G "\<lambda>_. 0" 0] r a m v l n
  show ?thesis by blast
qed

text \<open>
  C9 (the code breaks it). Claim: for a non-empty candidate set the probabilities
  \<open>exp (score / 0.5) / sum\<close> sum to 1 and the cumulative sampling selects a candidate by
  them. The code exponentiates the raw scores: from score 355 on \<open>Math.exp(score / 0.5)\<close>
  is Infinity, the sum is Infinity and the best candidate's probability is
  \<open>Infinity / Infinity = NaN\<close>. In the round \<open>greedyRound\<close>, at the tick after the 15th
  cycle 1 ranks RIGHT with score 382: the probabilities sum to NaN, no comparison
  \<open>random <= cumulative\<close> holds for any random number, and the loop selects nothing (the
  statement after it returns the best-scored candidate).
\<close>

theorem softmax_overflow:
  "reachable (greedyRound 15) \<and>
   rankedCandidates (greedyRound 15) 0 = [(RIGHT, 382), (LEFT, 354), (DOWN, 234)] \<and>
   hd (probabilitiesOf [(RIGHT, 382), (LEFT, 354), (DOWN, 234)]) = NaN \<and>
   foldl jsAdd (Fin 0) (probabilitiesOf [(RIGHT, 382), (LEFT, 354), (DOWN, 234)]) = NaN \<and>
   weightedSelect random (Fin 0) [(RIGHT, 382), (LEFT, 354), (DOWN, 234)]
     (probabilitiesOf [(RIGHT, 382), (LEFT, 354), (DOWN, 234)]) = None"
proof -
  have r: "rankedCandidates (greedyRound 15) 0 = [(RIGHT, 382), (LEFT, 354), (DOWN, 234)]"
    by code_simp
  show ?thesis
    using r reachable_rounds(1) [of 15]
      overflow_selects_nothing(1,2) [OF exp_764_overflows, of RIGHT "[(LEFT, 354), (DOWN, 234)]"]
      overflow_selects_nothing(3) [OF exp_764_overflows, of random RIGHT "[(LEFT, 354), (DOWN, 234)]"]
    by simp
qed

text \<open>
  C10. An \<open>update\<close> call that performs no move step, because the state is RESTARTING and
  the restart delay has not elapsed, or because less than \<open>speed\<close> ms have passed since the
  last move, changes only the frame counter and the particle list: score, speed, state,
  Trail grid and all cycles are unchanged.
\<close>

theorem update_idle_frame:
  "(state g = RESTARTING \<and> \<not> (t - restartTime g > restartDelay)) \<or>
   (state g = PLAYING \<and> t - lastMoveTime g < real_of_int (speed g)) \<Longrightarrow>
     update t rnd now g = g\<lparr> frameCount := frameCount g + 1, particles := updateParticles (particles g) \<rparr> \<and>
     score (update t rnd now g) = score g \<and>
     speed (update t rnd now g) = speed g \<and>
     state (update t rnd now g) = state g \<and>
     trailGrid (update t rnd now g) = trailGrid g \<and>
     cycles (update t rnd now g) = cycles g"
  by (auto simp: update_def Let_def)

text \<open>C10 at a fresh round (too early to move) and during a restart delay.\<close>

theorem update_idle_frame_witness:
  "state (newGame quietGrid 0 (\<lambda>_. 0)) = PLAYING \<and>
   100 - lastMoveTime (newGame quietGrid 0 (\<lambda>_. 0)) < real_of_int (speed (newGame quietGrid 0 (\<lambda>_. 0))) \<and>
   cycles (update 100 (\<lambda>_. 0) 0 (newGame quietGrid 0 (\<lambda>_. 0))) = cycles (newGame quietGrid 0 (\<lambda>_. 0)) \<and>
   trailGrid (update 100 (\<lambda>_. 0) 0 (newGame quietGrid 0 (\<lambda>_. 0))) = trailGrid (newGame quietGrid 0 (\<lambda>_. 0)) \<and>
   state pausedRound = RESTARTING \<and>
   \<not> 3000 - restartTime pausedRound > restartDelay \<and>
   state (update 3000 (\<lambda>_. 0) 0 pausedRound) = RESTARTING \<and>
   cycles (update 3000 (\<lambda>_. 0) 0 pausedRound) = cycles pausedRound"
proof -
  let ?G = "newGame quietGrid 0 (\<lambda>_. 0)"
  have p: "state ?G = PLAYING \<and> 100 - lastMoveTime ?G < real_of_int (speed ?G)"
    by (simp add: newGame_def reset_fields)
  have r: "state pausedRound = RESTARTING \<and> \<not> 3000 - restartTime pausedRound > restartDelay"
    by code_simp
  from update_idle_frame [of ?G 100 "\<lambda>_. 0" 0] update_idle_frame [of pausedRound 3000 "\<lambda>_. 0" 0] p r
  show ?thesis by simp
qed

end
